theory Spec2Isabelle
  imports Complex_Main
begin

section \<open>Rocket simulation: the embedding\<close>

text \<open>
  A shallow embedding of \<^verbatim>\<open>RocketSimulationAlyGaber.py\<close>, in two parts.

  The cargo loader is modelled over the real numbers: its weights and volumes are exact,
  so what is proved of it is proved of its control flow under exact arithmetic; rounding
  error, infinities and NaN are outside that part.

  The geometry, the fuel, the cost and the trajectory are modelled over an arbitrary
  float arithmetic, a parameter of every function: what is proved of them holds for
  whatever the float operations return, under the stated facts about which errors they
  raise. Worked examples are evaluated in one instance, the exact arithmetic within the
  float range.

  Every operation of the source that raises is a branch of the model: division by zero,
  the overflow of a power, \<^verbatim>\<open>int\<close> of an infinite float, \<^verbatim>\<open>float\<close> of a text
  that is no number, \<^verbatim>\<open>input\<close> at the end of the item source. Console messages of
  the cargo loader are not modelled; the heights printed by the trajectory simulator are
  its result list.
\<close>

subsection \<open>Python values, errors, rounding\<close>

datatype py_error = ZeroDivisionError | OverflowError | ValueError | EOFError

datatype pyval = PyNone | PyBool bool | PyInt int | PyFloat real | PyStr string

text \<open>\<^verbatim>\<open>v == True\<close>: equality with the canonical true value.\<close>

fun py_eq_True :: "pyval \<Rightarrow> bool" where
  "py_eq_True (PyBool b) = b"
| "py_eq_True (PyInt n) = (n = 1)"
| "py_eq_True (PyFloat r) = (r = 1)"
| "py_eq_True PyNone = False"
| "py_eq_True (PyStr s) = False"

text \<open>\<^verbatim>\<open>bool(v)\<close>: general truthiness.\<close>

fun py_truthy :: "pyval \<Rightarrow> bool" where
  "py_truthy (PyBool b) = b"
| "py_truthy (PyInt n) = (n \<noteq> 0)"
| "py_truthy (PyFloat r) = (r \<noteq> 0)"
| "py_truthy PyNone = False"
| "py_truthy (PyStr s) = (s \<noteq> [])"

text \<open>\<^verbatim>\<open>round(x, 2)\<close>: to the nearest multiple of 0.01, a tie going to the even one.\<close>

definition py_round2 :: "real \<Rightarrow> real" where
  "py_round2 x =
     (let y = x * 100; f = \<lfloor>y\<rfloor>; d = y - of_int f
      in (if d < 1 / 2 then of_int f
          else if 1 / 2 < d then of_int (f + 1)
          else if even f then of_int f else of_int (f + 1)) / 100)"

text \<open>\<^verbatim>\<open>sys.float_info.max\<close>, the largest float.\<close>

definition FLOAT_MAX :: real where
  "FLOAT_MAX = (2 - 1 / 2 ^ 52) * 2 ^ 1023"

text \<open>\<^verbatim>\<open>int(x)\<close> of a float: truncation towards zero.\<close>

definition py_int :: "real \<Rightarrow> int" where
  "py_int x = (if 0 \<le> x then \<lfloor>x\<rfloor> else \<lceil>x\<rceil>)"

text \<open>\<^verbatim>\<open>range(0, n)\<close>.\<close>

definition py_range0 :: "int \<Rightarrow> nat list" where
  "py_range0 n = [0..<nat n]"

subsection \<open>Constants\<close>

definition FEET_TO_METER :: real where "FEET_TO_METER = 3.28"
definition DENSITY_OF_ROCKET :: real where "DENSITY_OF_ROCKET = 1.225"
definition ROCKET_SMALL_MASS :: real where "ROCKET_SMALL_MASS = 100000"
definition ROCKET_MEDIUM_MASS :: real where "ROCKET_MEDIUM_MASS = 400000"
definition SMALL_ROCKET_FUEL_ECON :: real where "SMALL_ROCKET_FUEL_ECON = 1360"
definition MED_ROCKET_FUEL_ECON :: real where "MED_ROCKET_FUEL_ECON = 2000"
definition LARGE_ROCKET_FUEL_ECON :: real where "LARGE_ROCKET_FUEL_ECON = 2721"
definition METAL_COST :: real where "METAL_COST = 5"
definition FUEL_COST :: real where "FUEL_COST = 6.1"
definition TAX :: real where "TAX = 1.15"
definition WEIGHT_THRESHOLD_MAXIMUM :: real where "WEIGHT_THRESHOLD_MAXIMUM = 0.05"
definition VOLUME_THRESHOLD_MAXIMUM :: real where "VOLUME_THRESHOLD_MAXIMUM = 0.4"
definition MAX_BOX_WEIGHT :: real where "MAX_BOX_WEIGHT = 500"
definition MIN_BOX_WEIGHT :: real where "MIN_BOX_WEIGHT = 20"
definition MIN_BOX_VOLUME :: real where "MIN_BOX_VOLUME = 0.125"
definition GRAVITY_CONSTANT :: real where "GRAVITY_CONSTANT = 9.81"

lemmas constants =
  FEET_TO_METER_def DENSITY_OF_ROCKET_def ROCKET_SMALL_MASS_def ROCKET_MEDIUM_MASS_def
  SMALL_ROCKET_FUEL_ECON_def MED_ROCKET_FUEL_ECON_def LARGE_ROCKET_FUEL_ECON_def
  METAL_COST_def FUEL_COST_def TAX_def WEIGHT_THRESHOLD_MAXIMUM_def
  VOLUME_THRESHOLD_MAXIMUM_def MAX_BOX_WEIGHT_def MIN_BOX_WEIGHT_def MIN_BOX_VOLUME_def
  GRAVITY_CONSTANT_def

subsection \<open>Unit conversion and storage space\<close>

definition feet_to_meter :: "real \<Rightarrow> real" where
  "feet_to_meter feet = py_round2 (feet * FEET_TO_METER)"

definition compute_storage_space :: "real \<Rightarrow> real \<Rightarrow> real \<times> real \<times> real" where
  "compute_storage_space radius height_cyl =
     (let storage_length = sqrt 2 * radius;
          storage_width = storage_length;
          storage_height = height_cyl / 2
      in (py_round2 storage_width, py_round2 storage_length, py_round2 storage_height))"

subsection \<open>The cargo loader\<close>

text \<open>
  The item source is the list of texts that \<^verbatim>\<open>input\<close> will return: the sentinel
  \<^verbatim>\<open>"Done"\<close>, a text that \<^verbatim>\<open>float\<close> reads as a number, or any other text.
\<close>

datatype entry = Done | Num real | Junk

record load_state =
  total_weight :: real
  total_volume :: real
  weight_of_all_items :: real
  volume_of_all_items :: real

text \<open>\<^verbatim>\<open>float(s)\<close>.\<close>

fun py_float :: "entry \<Rightarrow> py_error + real" where
  "py_float (Num r) = Inr r"
| "py_float Done = Inl ValueError"
| "py_float Junk = Inl ValueError"

text \<open>\<^verbatim>\<open>float(input(...))\<close>: the number read and the rest of the source.\<close>

fun read_float :: "entry list \<Rightarrow> py_error + (real \<times> entry list)" where
  "read_float [] = Inl EOFError"
| "read_float (s # rest) =
     (case py_float s of Inl err \<Rightarrow> Inl err | Inr r \<Rightarrow> Inr (r, rest))"

text \<open>How one pass through the loop body ends.\<close>

datatype outcome =
    Return pyval "entry list"
  | Raise py_error
  | Continue load_state "entry list"

text \<open>The condition of the \<^verbatim>\<open>while\<close> loop.\<close>

definition loop_cond :: "real \<Rightarrow> real \<Rightarrow> load_state \<Rightarrow> bool" where
  "loop_cond rocket_initial_weight storage_volume st \<longleftrightarrow>
     total_weight st <
       rocket_initial_weight + rocket_initial_weight * WEIGHT_THRESHOLD_MAXIMUM \<and>
     total_volume st < storage_volume + storage_volume * VOLUME_THRESHOLD_MAXIMUM"

text \<open>
  The tail of the body, once the four fields of an item are read: the tentative
  additions, then the two checks.
\<close>

definition add_item ::
  "real \<Rightarrow> real \<Rightarrow> load_state \<Rightarrow> real \<Rightarrow> real \<Rightarrow> real \<Rightarrow> real \<Rightarrow> load_state" where
  "add_item rocket_initial_weight storage_volume st
       item_weight item_width item_length item_height =
     (let item_volume = item_width * item_length * item_height;
          st = st\<lparr>weight_of_all_items := weight_of_all_items st + item_weight\<rparr>;
          st = st\<lparr>volume_of_all_items := volume_of_all_items st + item_volume\<rparr>
      in if item_weight < MIN_BOX_WEIGHT \<or> item_weight > MAX_BOX_WEIGHT \<or>
            weight_of_all_items st > rocket_initial_weight * WEIGHT_THRESHOLD_MAXIMUM
         then st\<lparr>weight_of_all_items := weight_of_all_items st - item_weight\<rparr>
         else if item_volume < MIN_BOX_VOLUME \<or>
                 volume_of_all_items st > storage_volume * VOLUME_THRESHOLD_MAXIMUM
         then st\<lparr>volume_of_all_items := volume_of_all_items st - item_volume\<rparr>
         else
           let st = st\<lparr>total_weight := total_weight st + weight_of_all_items st\<rparr>
           in st\<lparr>total_volume := total_volume st + volume_of_all_items st\<rparr>)"

text \<open>One pass through the body of the loop.\<close>

definition load_body :: "real \<Rightarrow> real \<Rightarrow> load_state \<Rightarrow> entry list \<Rightarrow> outcome" where
  "load_body rocket_initial_weight storage_volume st ins =
     (if rocket_initial_weight * WEIGHT_THRESHOLD_MAXIMUM - weight_of_all_items st
           < MIN_BOX_WEIGHT
      then Return (PyFloat (py_round2 (total_weight st))) ins
      else if storage_volume * VOLUME_THRESHOLD_MAXIMUM - volume_of_all_items st
           < MIN_BOX_VOLUME
      then Return (PyFloat (py_round2 (total_weight st))) ins
      else
        (case ins of
           [] \<Rightarrow> Raise EOFError
         | item_weight # ins \<Rightarrow>
             if item_weight = Done then Return (PyFloat (py_round2 (total_weight st))) ins
             else
               (case py_float item_weight of
                  Inl err \<Rightarrow> Raise err
                | Inr item_weight \<Rightarrow>
                    (case read_float ins of
                       Inl err \<Rightarrow> Raise err
                     | Inr (item_width, ins) \<Rightarrow>
                         (case read_float ins of
                            Inl err \<Rightarrow> Raise err
                          | Inr (item_length, ins) \<Rightarrow>
                              (case read_float ins of
                                 Inl err \<Rightarrow> Raise err
                               | Inr (item_height, ins) \<Rightarrow>
                                   Continue
                                     (add_item rocket_initial_weight storage_volume st
                                        item_weight item_width item_length item_height)
                                     ins))))))"

lemma read_float_rest: "read_float ins = Inr (r, rest) \<Longrightarrow> \<exists>s. ins = s # rest"
  by (cases ins) (auto split: sum.splits)

lemma load_body_Continue:
  assumes "load_body riw sv st ins = Continue st' ins'"
  shows "\<exists>a b c d. ins = a # b # c # d # ins'"
  using assms
  by (auto simp: load_body_def split: if_splits list.splits sum.splits prod.splits
           dest!: read_float_rest)

text \<open>
  The loop. Leaving it because its condition fails reaches the end of the function,
  which has no \<^verbatim>\<open>return\<close> statement there: the call yields \<^verbatim>\<open>None\<close>. The
  result comes with what is left of the item source.
\<close>

function load_loop ::
  "real \<Rightarrow> real \<Rightarrow> load_state \<Rightarrow> entry list \<Rightarrow> (py_error + pyval) \<times> entry list" where
  "load_loop rocket_initial_weight storage_volume st ins =
     (if loop_cond rocket_initial_weight storage_volume st
      then
        (case load_body rocket_initial_weight storage_volume st ins of
           Return v rest \<Rightarrow> (Inr v, rest)
         | Raise err \<Rightarrow> (Inl err, [])
         | Continue st' rest \<Rightarrow> load_loop rocket_initial_weight storage_volume st' rest)
      else (Inr PyNone, ins))"
  by pat_completeness auto
termination
  by (relation "measure (\<lambda>(riw, sv, st, ins). length ins)")
     (auto dest!: load_body_Continue)

declare load_loop.simps [simp del]

definition initial_state :: "real \<Rightarrow> real \<Rightarrow> load_state" where
  "initial_state rocket_initial_weight storage_volume =
     \<lparr>total_weight = rocket_initial_weight, total_volume = storage_volume,
      weight_of_all_items = 0, volume_of_all_items = 0\<rparr>"

definition load_rocket ::
  "real \<Rightarrow> real \<Rightarrow> real \<Rightarrow> entry list \<Rightarrow> (py_error + pyval) \<times> entry list" where
  "load_rocket rocket_initial_weight radius height_cyl ins =
     (case compute_storage_space radius height_cyl of
        (storage_width, storage_length, storage_height) \<Rightarrow>
          let storage_volume = storage_width * storage_length * storage_height;
              storage_volume = py_round2 storage_volume
          in load_loop rocket_initial_weight storage_volume
               (initial_state rocket_initial_weight storage_volume) ins)"

text \<open>
  The states at the start of the iterations the loop executes, in order: the same
  recursion as \<open>load_loop\<close>, recording the state instead of the result.
\<close>

function load_trace :: "real \<Rightarrow> real \<Rightarrow> load_state \<Rightarrow> entry list \<Rightarrow> load_state list" where
  "load_trace rocket_initial_weight storage_volume st ins =
     (if loop_cond rocket_initial_weight storage_volume st
      then
        st # (case load_body rocket_initial_weight storage_volume st ins of
                Return v rest \<Rightarrow> []
              | Raise err \<Rightarrow> []
              | Continue st' rest \<Rightarrow> load_trace rocket_initial_weight storage_volume st' rest)
      else [])"
  by pat_completeness auto
termination
  by (relation "measure (\<lambda>(riw, sv, st, ins). length ins)")
     (auto dest!: load_body_Continue)

declare load_trace.simps [simp del]

subsection \<open>Float arithmetic\<close>

text \<open>
  The geometry, the fuel, the cost and the trajectory are computed in Python's float
  arithmetic, whose results are not the exact ones. Their model takes the arithmetic as
  a parameter: the type \<open>'f\<close> of the floats (infinities and NaN among them) and the
  operations on it, each with the errors it can raise. \<open>f_lit r\<close> is the float of the
  literal, constant or integer \<open>r\<close>; \<open>f_fin\<close> tells the finite floats, and \<open>f_val\<close>
  gives their value. The arguments of the functions are floats, as \<^verbatim>\<open>rocket_main\<close>
  passes them; an integer argument of a documented example stands for the float of the
  same value.
\<close>

record 'f arith =
  f_lit :: "real \<Rightarrow> 'f"
  f_fin :: "'f \<Rightarrow> bool"
  f_val :: "'f \<Rightarrow> real"
  f_add :: "'f \<Rightarrow> 'f \<Rightarrow> 'f"
  f_sub :: "'f \<Rightarrow> 'f \<Rightarrow> 'f"
  f_mul :: "'f \<Rightarrow> 'f \<Rightarrow> 'f"
  f_div :: "'f \<Rightarrow> 'f \<Rightarrow> py_error + 'f"
  f_pow :: "'f \<Rightarrow> 'f \<Rightarrow> py_error + 'f"
  f_sqrt :: "'f \<Rightarrow> py_error + 'f"
  f_sin :: "'f \<Rightarrow> py_error + 'f"
  f_round2 :: "'f \<Rightarrow> 'f"
  f_lt :: "'f \<Rightarrow> 'f \<Rightarrow> bool"
  f_ge :: "'f \<Rightarrow> 'f \<Rightarrow> bool"
  f_int :: "'f \<Rightarrow> py_error + int"

definition f_is_zero :: "'f arith \<Rightarrow> 'f \<Rightarrow> bool" where
  "f_is_zero ar x \<longleftrightarrow> f_fin ar x \<and> f_val ar x = 0"

text \<open>Sequencing: an error of the first computation is the error of the whole.\<close>

definition then_e :: "py_error + 'a \<Rightarrow> ('a \<Rightarrow> py_error + 'b) \<Rightarrow> py_error + 'b" where
  "then_e m f = (case m of Inl err \<Rightarrow> Inl err | Inr x \<Rightarrow> f x)"

text \<open>
  What is assumed of Python's float operations, and no more: a division raises exactly
  when its divisor is zero, and then the division by zero; a square and a power of
  \<^verbatim>\<open>math.e\<close> raise nothing but the overflow; the literal 3 is not zero;
  \<^verbatim>\<open>int\<close> returns only for a finite float, and then its value truncated towards
  zero.
\<close>

definition python_raises :: "'f arith \<Rightarrow> bool" where
  "python_raises ar \<longleftrightarrow>
     (\<forall>x y. f_div ar x y = Inl ZeroDivisionError \<longleftrightarrow> f_is_zero ar y) \<and>
     (\<forall>x y err. f_div ar x y = Inl err \<longrightarrow> err = ZeroDivisionError) \<and>
     (\<forall>x err. f_pow ar x (f_lit ar 2) = Inl err \<longrightarrow> err = OverflowError) \<and>
     (\<forall>y err. f_pow ar (f_lit ar (exp 1)) y = Inl err \<longrightarrow> err = OverflowError) \<and>
     \<not> f_is_zero ar (f_lit ar 3) \<and>
     (\<forall>x n. f_int ar x = Inr n \<longrightarrow> f_fin ar x \<and> n = py_int (f_val ar x))"

subsection \<open>Geometry, mass, fuel, cost\<close>

text \<open>
  The operations are sequenced in the order in which Python evaluates them, so that the
  error raised first is the error of the call. The call of \<open>rocket_fuel\<close> in
  \<open>calculate_cost\<close> is not guarded: its error is the caller's.
\<close>

definition rocket_volume :: "'f arith \<Rightarrow> 'f \<Rightarrow> 'f \<Rightarrow> 'f \<Rightarrow> py_error + 'f" where
  "rocket_volume ar radius height_cone height_cyl =
     then_e (f_pow ar radius (f_lit ar 2)) (\<lambda>radius_2.
     then_e (f_div ar height_cone (f_lit ar 3)) (\<lambda>third.
       let volume_cone = f_mul ar (f_mul ar (f_lit ar pi) radius_2) third
       in then_e (f_pow ar radius (f_lit ar 2)) (\<lambda>radius_2.
            let volume_cyl = f_mul ar (f_mul ar (f_lit ar pi) radius_2) height_cyl
            in Inr (f_round2 ar (f_add ar volume_cone volume_cyl)))))"

definition rocket_area :: "'f arith \<Rightarrow> 'f \<Rightarrow> 'f \<Rightarrow> 'f \<Rightarrow> py_error + 'f" where
  "rocket_area ar radius height_cone height_cyl =
     then_e (f_pow ar height_cone (f_lit ar 2)) (\<lambda>height_cone_2.
     then_e (f_pow ar radius (f_lit ar 2)) (\<lambda>radius_2.
     then_e (f_sqrt ar (f_add ar height_cone_2 radius_2)) (\<lambda>slant.
       let area_cone = f_mul ar (f_mul ar (f_lit ar pi) radius) (f_add ar radius slant);
           area_cyl = f_mul ar (f_mul ar (f_mul ar (f_lit ar 2) (f_lit ar pi)) radius)
                        (f_add ar height_cyl radius)
       in then_e (f_pow ar radius (f_lit ar 2)) (\<lambda>radius_2.
            let area_circle =
                  f_sub ar (f_add ar area_cone area_cyl)
                    (f_mul ar (f_lit ar 2) (f_mul ar (f_lit ar pi) radius_2))
            in Inr (f_round2 ar area_circle)))))"

definition rocket_mass :: "'f arith \<Rightarrow> 'f \<Rightarrow> 'f \<Rightarrow> 'f \<Rightarrow> py_error + 'f" where
  "rocket_mass ar radius height_cone height_cyl =
     then_e (rocket_volume ar radius height_cone height_cyl) (\<lambda>volume.
       let rocket_density = f_mul ar volume (f_lit ar DENSITY_OF_ROCKET)
       in Inr (f_round2 ar rocket_density))"

definition rocket_fuel ::
  "'f arith \<Rightarrow> 'f \<Rightarrow> 'f \<Rightarrow> 'f \<Rightarrow> 'f \<Rightarrow> 'f \<Rightarrow> 'f \<Rightarrow> py_error + 'f" where
  "rocket_fuel ar radius height_cone height_cyl velocity_e velocity_i flight_time =
     then_e (rocket_mass ar radius height_cone height_cyl) (\<lambda>mass.
     then_e (f_div ar velocity_i velocity_e) (\<lambda>ratio.
     then_e (f_pow ar (f_lit ar (exp 1)) ratio) (\<lambda>e_power.
       let total_fuel = f_mul ar mass (f_sub ar e_power (f_lit ar 1))
       in then_e (rocket_mass ar radius height_cone height_cyl) (\<lambda>mass.
            if f_lt ar mass (f_lit ar ROCKET_SMALL_MASS)
            then Inr (f_round2 ar
                   (f_add ar total_fuel
                      (f_mul ar (f_lit ar SMALL_ROCKET_FUEL_ECON) flight_time)))
            else
              then_e (rocket_mass ar radius height_cone height_cyl) (\<lambda>mass.
                if f_lt ar mass (f_lit ar ROCKET_MEDIUM_MASS)
                then Inr (f_round2 ar
                       (f_add ar total_fuel
                          (f_mul ar (f_lit ar MED_ROCKET_FUEL_ECON) flight_time)))
                else Inr (f_round2 ar
                       (f_add ar total_fuel
                          (f_mul ar (f_lit ar LARGE_ROCKET_FUEL_ECON) flight_time))))))))"

definition calculate_cost ::
  "'f arith \<Rightarrow> 'f \<Rightarrow> 'f \<Rightarrow> 'f \<Rightarrow> 'f \<Rightarrow> 'f \<Rightarrow> 'f \<Rightarrow> pyval \<Rightarrow> py_error + 'f" where
  "calculate_cost ar radius height_cone height_cyl velocity_e velocity_i flight_time tax =
     then_e (rocket_area ar radius height_cone height_cyl) (\<lambda>area.
       let metal_cost = f_mul ar area (f_lit ar METAL_COST)
       in then_e (rocket_fuel ar radius height_cone height_cyl
                    velocity_e velocity_i flight_time) (\<lambda>fuel.
            let fuel_cost = f_mul ar fuel (f_lit ar FUEL_COST);
                cost = (if py_eq_True tax
                        then f_mul ar (f_add ar metal_cost fuel_cost) (f_lit ar TAX)
                        else f_add ar metal_cost fuel_cost)
            in Inr (f_round2 ar cost)))"

subsection \<open>The trajectory simulator\<close>

text \<open>
  The body of the \<^verbatim>\<open>for\<close> loop over the steps still to run. The result is the
  list of the heights printed and the error that ended the run, if one did
  (\<^verbatim>\<open>time**2\<close> and \<^verbatim>\<open>math.sin\<close> can raise). The first negative height ends the
  function.
\<close>

fun sim_loop :: "'f arith \<Rightarrow> 'f \<Rightarrow> 'f \<Rightarrow> 'f \<Rightarrow> nat list \<Rightarrow> 'f list \<times> py_error option" where
  "sim_loop ar interval velocity_i angle [] = ([], None)"
| "sim_loop ar interval velocity_i angle (time # steps) =
     (let time = f_mul ar (f_lit ar (real time)) interval;
          falling = f_mul ar (f_lit ar (- 0.5)) (f_lit ar GRAVITY_CONSTANT)
      in (case f_pow ar time (f_lit ar 2) of
            Inl err \<Rightarrow> ([], Some err)
          | Inr time_2 \<Rightarrow>
              (case f_sin ar angle of
                 Inl err \<Rightarrow> ([], Some err)
               | Inr sine \<Rightarrow>
                   (let height = f_add ar (f_mul ar falling time_2)
                                   (f_mul ar (f_mul ar velocity_i sine) time)
                    in if f_ge ar height (f_lit ar 0)
                       then (case sim_loop ar interval velocity_i angle steps of
                               (printed, err) \<Rightarrow> (f_round2 ar height # printed, err))
                       else ([], None)))))"

definition projectile_sim ::
  "'f arith \<Rightarrow> 'f \<Rightarrow> 'f \<Rightarrow> 'f \<Rightarrow> 'f \<Rightarrow> 'f list \<times> py_error option" where
  "projectile_sim ar simulation_time interval velocity_i angle =
     (case f_div ar simulation_time interval of
        Inl err \<Rightarrow> ([], Some err)
      | Inr ratio \<Rightarrow>
          (case f_int ar ratio of
             Inl err \<Rightarrow> ([], Some err)
           | Inr n \<Rightarrow> sim_loop ar interval velocity_i angle (py_range0 (n + 1))))"

text \<open>
  The trajectory as the specification words it, for comparison with \<open>projectile_sim\<close>:
  the height of a step, at the time \<open>step * interval\<close>, computed in the float
  arithmetic; and the heights of the steps \<open>0 .. last_step\<close>, in order, cut before
  the first negative one, each rounded to two decimals.
\<close>

definition spec_height :: "'f arith \<Rightarrow> 'f \<Rightarrow> 'f \<Rightarrow> 'f \<Rightarrow> nat \<Rightarrow> py_error + 'f" where
  "spec_height ar interval vInitial angle step =
     (let t = f_mul ar (f_lit ar (real step)) interval
      in then_e (f_pow ar t (f_lit ar 2)) (\<lambda>t_2.
         then_e (f_sin ar angle) (\<lambda>sine.
           Inr (f_add ar (f_mul ar (f_mul ar (f_lit ar (- 0.5)) (f_lit ar 9.81)) t_2)
                  (f_mul ar (f_mul ar vInitial sine) t)))))"

definition spec_trajectory :: "'f arith \<Rightarrow> int \<Rightarrow> (nat \<Rightarrow> 'f) \<Rightarrow> 'f list" where
  "spec_trajectory ar last_step heights =
     map (f_round2 ar)
       (takeWhile (\<lambda>h. f_ge ar h (f_lit ar 0)) (map heights [0..<nat (last_step + 1)]))"

subsection \<open>The exact arithmetic within the float range\<close>

text \<open>
  The instance used for worked examples: every float is a real number, the operations
  are exact, and a power beyond the largest float raises. It agrees with Python's floats
  wherever the exact results are floats, and stands for them in the examples below, whose
  results are away from every rounding boundary.
\<close>

definition ideal :: "real arith" where
  "ideal =
     \<lparr>f_lit = (\<lambda>r. r),
      f_fin = (\<lambda>x. True),
      f_val = (\<lambda>x. x),
      f_add = (\<lambda>x y. x + y),
      f_sub = (\<lambda>x y. x - y),
      f_mul = (\<lambda>x y. x * y),
      f_div = (\<lambda>x y. if y = 0 then Inl ZeroDivisionError else Inr (x / y)),
      f_pow = (\<lambda>x y. let p = (if y = 2 then x\<^sup>2 else x powr y)
                      in if FLOAT_MAX < p then Inl OverflowError else Inr p),
      f_sqrt = (\<lambda>x. if x < 0 then Inl ValueError else Inr (sqrt x)),
      f_sin = (\<lambda>x. Inr (sin x)),
      f_round2 = py_round2,
      f_lt = (\<lambda>x y. x < y),
      f_ge = (\<lambda>x y. x \<ge> y),
      f_int = (\<lambda>x. Inr (py_int x))\<rparr>"

section \<open>Properties\<close>

subsection \<open>Rounding\<close>

lemma py_round2_eqI:
  assumes "of_int k - 1 / 2 < x * 100" "x * 100 < of_int k + 1 / 2"
  shows "py_round2 x = of_int k / 100"
proof -
  let ?y = "x * 100"
  consider "\<lfloor>?y\<rfloor> = k" | "\<lfloor>?y\<rfloor> = k - 1" using assms by linarith
  then show ?thesis
  proof cases
    case 1
    then have "?y - of_int \<lfloor>?y\<rfloor> < 1 / 2" using assms by simp
    then show ?thesis using 1 by (simp add: py_round2_def Let_def)
  next
    case 2
    then have "1 / 2 < ?y - of_int \<lfloor>?y\<rfloor>" using assms by simp
    then show ?thesis using 2 by (simp add: py_round2_def Let_def)
  qed
qed

lemma py_round2_err: "\<bar>py_round2 x - x\<bar> \<le> 1 / 200"
proof -
  have "of_int \<lfloor>x * 100\<rfloor> \<le> x * 100" "x * 100 < of_int \<lfloor>x * 100\<rfloor> + 1"
    by linarith+
  then show ?thesis
    unfolding py_round2_def Let_def by (auto simp: abs_le_iff field_simps)
qed

subsection \<open>The cargo loader: one item\<close>

lemma load_body_item:
  assumes "\<not> riw * WEIGHT_THRESHOLD_MAXIMUM - weight_of_all_items st < MIN_BOX_WEIGHT"
    and "\<not> sv * VOLUME_THRESHOLD_MAXIMUM - volume_of_all_items st < MIN_BOX_VOLUME"
  shows "load_body riw sv st (Num w # Num a # Num b # Num c # rest) =
           Continue (add_item riw sv st w a b c) rest"
  using assms by (simp add: load_body_def)

text \<open>
  C3. In an iteration that solicits an item (both pre-checks pass and the four fields
  are numbers), the item's weight and its volume, width times length times height, are
  added to the pending accumulators before any check: the checks read the increased
  accumulators, the volume stays added when the weight is rejected, and the weight stays
  added when the volume is rejected. On acceptance the whole pending totals, not the
  item's own weight and volume, are added to the total weight and the total volume.
\<close>

theorem load_rocket_adds_pending_before_validation:
  assumes "\<not> riw * WEIGHT_THRESHOLD_MAXIMUM - weight_of_all_items st < MIN_BOX_WEIGHT"
    and "\<not> sv * VOLUME_THRESHOLD_MAXIMUM - volume_of_all_items st < MIN_BOX_VOLUME"
  shows "load_body riw sv st (Num w # Num a # Num b # Num c # rest) =
           Continue
             (let pending_weight = weight_of_all_items st + w;
                  pending_volume = volume_of_all_items st + a * b * c
              in if w < MIN_BOX_WEIGHT \<or> w > MAX_BOX_WEIGHT \<or>
                    pending_weight > riw * WEIGHT_THRESHOLD_MAXIMUM
                 then st\<lparr>weight_of_all_items := pending_weight - w,
                         volume_of_all_items := pending_volume\<rparr>
                 else if a * b * c < MIN_BOX_VOLUME \<or>
                         pending_volume > sv * VOLUME_THRESHOLD_MAXIMUM
                 then st\<lparr>weight_of_all_items := pending_weight,
                         volume_of_all_items := pending_volume - a * b * c\<rparr>
                 else \<lparr>total_weight = total_weight st + pending_weight,
                       total_volume = total_volume st + pending_volume,
                       weight_of_all_items = pending_weight,
                       volume_of_all_items = pending_volume\<rparr>)
             rest"
  unfolding load_body_item [OF assms] add_item_def Let_def by simp

theorem load_rocket_adds_pending_before_validation_witness:
  "load_body 10000 374.89
     \<lparr>total_weight = 10100, total_volume = 382.89,
      weight_of_all_items = 100, volume_of_all_items = 8\<rparr>
     [Num 100, Num 2, Num 2, Num 2, Done] =
   Continue
     \<lparr>total_weight = 10300, total_volume = 398.89,
      weight_of_all_items = 200, volume_of_all_items = 16\<rparr>
     [Done]"
  using load_rocket_adds_pending_before_validation
    [where riw = 10000 and sv = "374.89" and w = 100 and a = 2 and b = 2 and c = 2
       and rest = "[Done]"
       and st = "\<lparr>total_weight = 10100, total_volume = 382.89,
                  weight_of_all_items = 100, volume_of_all_items = 8\<rparr>"]
  by (simp add: constants)

subsection \<open>The cargo loader: the loop\<close>

lemma load_body_Continue_item:
  assumes "load_body riw sv st ins = Continue st' ins'"
  shows "\<exists>w a b c. ins = Num w # Num a # Num b # Num c # ins' \<and>
           st' = add_item riw sv st w a b c"
proof -
  have pf: "\<And>e r. py_float e = Inr r \<Longrightarrow> e = Num r"
    by (case_tac e) auto
  have rf: "\<And>xs r rest. read_float xs = Inr (r, rest) \<Longrightarrow> xs = Num r # rest"
    by (case_tac xs) (auto split: sum.splits dest: pf)
  show ?thesis
    using assms
    by (auto simp: load_body_def split: if_splits list.splits sum.splits prod.splits
             dest!: rf pf)
qed

lemma load_loop_exit:
  "\<not> loop_cond riw sv st \<Longrightarrow> load_loop riw sv st ins = (Inr PyNone, ins)"
  by (simp add: load_loop.simps)

lemma load_loop_precheck:
  assumes "loop_cond riw sv st"
    and "riw * WEIGHT_THRESHOLD_MAXIMUM - weight_of_all_items st < MIN_BOX_WEIGHT \<or>
         sv * VOLUME_THRESHOLD_MAXIMUM - volume_of_all_items st < MIN_BOX_VOLUME"
  shows "load_loop riw sv st ins = (Inr (PyFloat (py_round2 (total_weight st))), ins)"
  using assms by (subst load_loop.simps) (auto simp: load_body_def)

lemma load_loop_rest: "length (snd (load_loop riw sv st ins)) \<le> length ins"
proof (induction riw sv st ins rule: load_loop.induct)
  case (1 riw sv st ins)
  show ?case
  proof (cases "loop_cond riw sv st")
    case False
    then show ?thesis by (simp add: load_loop.simps)
  next
    case True
    show ?thesis
    proof (cases "load_body riw sv st ins")
      case (Return v rest)
      then have "length rest \<le> length ins"
        by (auto simp: load_body_def split: if_splits list.splits sum.splits prod.splits)
      with True Return show ?thesis by (simp add: load_loop.simps)
    next
      case (Raise err)
      with True show ?thesis by (simp add: load_loop.simps)
    next
      case (Continue st' rest)
      then obtain a b c d where "ins = a # b # c # d # rest"
        using load_body_Continue by blast
      with "1.IH" [OF True Continue] True Continue show ?thesis
        by (subst load_loop.simps) simp
    qed
  qed
qed

lemma load_trace_length: "length (load_trace riw sv st ins) \<le> length ins div 4 + 1"
proof (induction riw sv st ins rule: load_trace.induct)
  case (1 riw sv st ins)
  show ?case
  proof (cases "loop_cond riw sv st")
    case False
    then show ?thesis by (simp add: load_trace.simps)
  next
    case True
    show ?thesis
    proof (cases "load_body riw sv st ins")
      case (Continue st' rest)
      then obtain a b c d where "ins = a # b # c # d # rest"
        using load_body_Continue by blast
      then have "length ins div 4 = length rest div 4 + 1" by simp
      with "1.IH" [OF True Continue] True Continue show ?thesis
        by (subst load_trace.simps) simp
    qed (use True in \<open>simp_all add: load_trace.simps\<close>)
  qed
qed

lemma add_item_weight_bounds:
  assumes "0 \<le> weight_of_all_items st"
    and "weight_of_all_items st \<le> riw * WEIGHT_THRESHOLD_MAXIMUM"
  shows "0 \<le> weight_of_all_items (add_item riw sv st w a b c) \<and>
         weight_of_all_items (add_item riw sv st w a b c) \<le> riw * WEIGHT_THRESHOLD_MAXIMUM"
  using assms by (auto simp: add_item_def Let_def MIN_BOX_WEIGHT_def)

lemma load_trace_weight_bounds:
  assumes "0 \<le> weight_of_all_items st"
    and "weight_of_all_items st \<le> riw * WEIGHT_THRESHOLD_MAXIMUM"
  shows "\<forall>s \<in> set (load_trace riw sv st ins).
           0 \<le> weight_of_all_items s \<and>
           weight_of_all_items s \<le> riw * WEIGHT_THRESHOLD_MAXIMUM"
  using assms
proof (induction riw sv st ins rule: load_trace.induct)
  case (1 riw sv st ins)
  show ?case
  proof (cases "loop_cond riw sv st")
    case False
    then show ?thesis by (simp add: load_trace.simps)
  next
    case True
    show ?thesis
    proof (cases "load_body riw sv st ins")
      case (Return v rest)
      with True "1.prems" show ?thesis by (simp add: load_trace.simps)
    next
      case (Raise err)
      with True "1.prems" show ?thesis by (simp add: load_trace.simps)
    next
      case (Continue st' rest)
      then obtain w a b c where st': "st' = add_item riw sv st w a b c"
        using load_body_Continue_item by blast
      have "\<forall>s \<in> set (load_trace riw sv st' rest).
              0 \<le> weight_of_all_items s \<and>
              weight_of_all_items s \<le> riw * WEIGHT_THRESHOLD_MAXIMUM"
        using "1.IH" [OF True Continue] add_item_weight_bounds [OF "1.prems"] st'
        by blast
      with True Continue "1.prems" show ?thesis
        by (subst load_trace.simps) simp
    qed
  qed
qed

subsection \<open>The storage space of the documented example\<close>

lemma sqrt2_bounds: "1.4142 < sqrt 2" "sqrt 2 < 1.4143"
  by (rule real_less_rsqrt, simp add: power2_eq_square)
     (rule real_less_lsqrt, simp_all add: power2_eq_square)

lemma compute_storage_space_5_15: "compute_storage_space 5 15 = (7.07, 7.07, 7.5)"
proof -
  have a: "py_round2 (sqrt 2 * 5) = of_int 707 / 100"
    using sqrt2_bounds by (intro py_round2_eqI) simp_all
  have b: "py_round2 (15 / 2) = of_int 750 / 100"
    by (intro py_round2_eqI) simp_all
  show ?thesis unfolding compute_storage_space_def Let_def a b by simp
qed

lemma storage_volume_5_15: "py_round2 (7.07 * 7.07 * 7.5) = 374.89"
proof -
  have "py_round2 (7.07 * 7.07 * 7.5) = of_int 37489 / 100"
    by (intro py_round2_eqI) simp_all
  then show ?thesis by simp
qed

lemma load_rocket_5_15:
  "load_rocket riw 5 15 ins = load_loop riw 374.89 (initial_state riw 374.89) ins"
  by (simp only: load_rocket_def compute_storage_space_5_15 Let_def prod.case
        storage_volume_5_15)

lemma py_round2_of_int: "py_round2 (of_int n) = of_int n"
  by (simp add: py_round2_def)

lemmas loader_eval =
  load_rocket_5_15 initial_state_def loop_cond_def load_body_def add_item_def constants
  load_loop.simps

subsection \<open>The cargo loader: the claims\<close>

text \<open>
  C1. The claim: a run that ends because the loop condition has become false returns the
  final total weight rounded to two decimals, as the sentinel and the pre-check exits do.
  The code: the function ends after the loop with no \<^verbatim>\<open>return\<close> statement, so
  the call yields \<^verbatim>\<open>None\<close>. Three accepted items of 100 kg on a rocket of
  10000 kg bring the total weight to 10600, past the bound of 10500: the loop ends, the
  result is \<^verbatim>\<open>None\<close> and the sentinel is never read.
\<close>

theorem load_rocket_loop_exit_returns_None:
  "load_rocket 10000 5 15
     [Num 100, Num 2, Num 2, Num 2, Num 100, Num 2, Num 2, Num 2,
      Num 100, Num 2, Num 2, Num 2, Done] = (Inr PyNone, [Done])"
  by (simp add: loader_eval)

text \<open>
  C2. The claim: a rejected item leaves both totals unchanged and both pending
  accumulators at their values from before the item. The code: each rejection branch
  takes back only its own quantity. An item rejected for its weight (10 kg) leaves its
  volume (8) in the pending volume; an item rejected for its volume leaves its weight
  (100 kg) in the pending weight, and the next accepted item of 50 kg then raises the
  total weight by 150: the loader returns 10150 for a rocket of 10000 kg that took one
  item of 50 kg on board.
\<close>

theorem load_rocket_rejection_keeps_other_pending:
  "load_body 10000 374.89 (initial_state 10000 374.89) [Num 10, Num 2, Num 2, Num 2, Done] =
     Continue \<lparr>total_weight = 10000, total_volume = 374.89,
               weight_of_all_items = 0, volume_of_all_items = 8\<rparr> [Done] \<and>
   load_body 10000 374.89 (initial_state 10000 374.89)
       [Num 100, Num 0.25, Num 0.25, Num 0.25, Done] =
     Continue \<lparr>total_weight = 10000, total_volume = 374.89,
               weight_of_all_items = 100, volume_of_all_items = 0\<rparr> [Done] \<and>
   load_rocket 10000 5 15
       [Num 100, Num 0.25, Num 0.25, Num 0.25, Num 50, Num 1, Num 1, Num 1, Done] =
     (Inr (PyFloat 10150), [])"
  using py_round2_of_int [of 10150] by (simp add: loader_eval)


lemma py_round2_100123: "py_round2 (100123 / 1000) = 2503 / 25"
proof -
  have "py_round2 (100123 / 1000) = of_int 10012 / 100"
    by (intro py_round2_eqI) simp_all
  then show ?thesis by simp
qed



text \<open>
  C9. The claim: at the start of every iteration of the loop the pending weight lies
  between 0 and the weight budget, \<open>rocket_initial_weight * 0.05\<close>. Over exact
  arithmetic, as the loader is modelled here, this holds, by the step behind it: an item
  that fails the weight check has its weight subtracted back out of the pending weight;
  an item that passes it weighs between 20 and 500 and leaves the pending weight, with
  its own weight added, within the budget, whether the volume check then rejects it or
  not. The code subtracts in float arithmetic, where \<open>(a + w) - w\<close> need not be
  \<open>a\<close>: there the bound can fail, which this theorem does not cover.
\<close>

theorem load_rocket_pending_weight_bounded:
  "(\<forall>s \<in> set (load_trace riw sv (initial_state riw sv) ins).
      0 \<le> weight_of_all_items s \<and>
      weight_of_all_items s \<le> riw * WEIGHT_THRESHOLD_MAXIMUM) \<and>
   (let pending_weight = weight_of_all_items st + w
    in if w < MIN_BOX_WEIGHT \<or> w > MAX_BOX_WEIGHT \<or>
          pending_weight > riw * WEIGHT_THRESHOLD_MAXIMUM
       then weight_of_all_items (add_item riw sv st w a b c) = pending_weight - w
       else MIN_BOX_WEIGHT \<le> w \<and> w \<le> MAX_BOX_WEIGHT \<and>
            weight_of_all_items (add_item riw sv st w a b c) = pending_weight \<and>
            pending_weight \<le> riw * WEIGHT_THRESHOLD_MAXIMUM)"
proof
  show "\<forall>s \<in> set (load_trace riw sv (initial_state riw sv) ins).
      0 \<le> weight_of_all_items s \<and>
      weight_of_all_items s \<le> riw * WEIGHT_THRESHOLD_MAXIMUM"
  proof (cases "loop_cond riw sv (initial_state riw sv)")
    case False
    then show ?thesis by (simp add: load_trace.simps)
  next
    case True
    then have "0 \<le> riw * WEIGHT_THRESHOLD_MAXIMUM"
      by (simp add: loop_cond_def initial_state_def)
    then show ?thesis
      by (intro load_trace_weight_bounds) (simp_all add: initial_state_def)
  qed
  show "let pending_weight = weight_of_all_items st + w
    in if w < MIN_BOX_WEIGHT \<or> w > MAX_BOX_WEIGHT \<or>
          pending_weight > riw * WEIGHT_THRESHOLD_MAXIMUM
       then weight_of_all_items (add_item riw sv st w a b c) = pending_weight - w
       else MIN_BOX_WEIGHT \<le> w \<and> w \<le> MAX_BOX_WEIGHT \<and>
            weight_of_all_items (add_item riw sv st w a b c) = pending_weight \<and>
            pending_weight \<le> riw * WEIGHT_THRESHOLD_MAXIMUM"
    by (auto simp: add_item_def Let_def)
qed

lemma load_trace_example:
  "load_trace 10000 374.89 (initial_state 10000 374.89)
     [Num 100, Num 0.25, Num 0.25, Num 0.25, Num 490, Num 1, Num 1, Num 1,
      Num 50, Num 1, Num 1, Num 1, Done] =
   [\<lparr>total_weight = 10000, total_volume = 374.89,
     weight_of_all_items = 0, volume_of_all_items = 0\<rparr>,
    \<lparr>total_weight = 10000, total_volume = 374.89,
     weight_of_all_items = 100, volume_of_all_items = 0\<rparr>,
    \<lparr>total_weight = 10000, total_volume = 374.89,
     weight_of_all_items = 100, volume_of_all_items = 1\<rparr>,
    \<lparr>total_weight = 10150, total_volume = 376.89,
     weight_of_all_items = 150, volume_of_all_items = 2\<rparr>]"
  by (simp add: initial_state_def loop_cond_def load_body_def add_item_def constants
        load_trace.simps)

theorem load_rocket_pending_weight_bounded_witness:
  "weight_of_all_items
     (load_trace 10000 374.89 (initial_state 10000 374.89)
        [Num 100, Num 0.25, Num 0.25, Num 0.25, Num 490, Num 1, Num 1, Num 1,
         Num 50, Num 1, Num 1, Num 1, Done] ! 3) = 150 \<and>
   (0::real) \<le> 150 \<and> (150::real) \<le> 10000 * WEIGHT_THRESHOLD_MAXIMUM"
  using load_rocket_pending_weight_bounded
    [where riw = 10000 and sv = "374.89"
       and ins = "[Num 100, Num 0.25, Num 0.25, Num 0.25, Num 490, Num 1, Num 1, Num 1,
         Num 50, Num 1, Num 1, Num 1, Done]"]
  unfolding load_trace_example by simp

text \<open>
  C10. The loader terminates on every finite item source. A pass through the loop body
  ends the run (it returns, or an error leaves the function) or goes on with an item
  source shorter by the four entries of one item; so the loop runs at most one iteration
  more than a quarter of the entries, and what the run leaves of the source is no longer
  than the source. (\<open>load_loop\<close> and \<open>load_trace\<close> are total by the measure
  \<open>length ins\<close>.)
\<close>

theorem load_rocket_terminates:
  "((\<exists>v rest. load_body riw sv st ins = Return v rest) \<or>
    (\<exists>err. load_body riw sv st ins = Raise err) \<or>
    (\<exists>st' rest. load_body riw sv st ins = Continue st' rest \<and>
                 length rest + 4 = length ins)) \<and>
   length (load_trace riw sv st ins) \<le> length ins div 4 + 1 \<and>
   length (snd (load_rocket riw radius height_cyl ins)) \<le> length ins"
proof (intro conjI)
  show "(\<exists>v rest. load_body riw sv st ins = Return v rest) \<or>
    (\<exists>err. load_body riw sv st ins = Raise err) \<or>
    (\<exists>st' rest. load_body riw sv st ins = Continue st' rest \<and>
                 length rest + 4 = length ins)"
  proof (cases "load_body riw sv st ins")
    case (Continue st' rest)
    then obtain a b c d where "ins = a # b # c # d # rest"
      using load_body_Continue by blast
    with Continue show ?thesis by simp
  qed simp_all
  show "length (load_trace riw sv st ins) \<le> length ins div 4 + 1"
    by (rule load_trace_length)
  show "length (snd (load_rocket riw radius height_cyl ins)) \<le> length ins"
    by (simp add: load_rocket_def Let_def load_loop_rest split: prod.splits)
qed

theorem load_rocket_terminates_witness:
  "length (load_trace 10000 374.89 (initial_state 10000 374.89)
     [Num 100, Num 0.25, Num 0.25, Num 0.25, Num 490, Num 1, Num 1, Num 1,
      Num 50, Num 1, Num 1, Num 1, Done]) = 4 \<and> (4::nat) \<le> 13 div 4 + 1 \<and>
   snd (load_rocket 10000 5 15 [Num 100, Num 2, Num 2, Num 2, Done, Num 1]) = [Num 1]"
  using load_rocket_terminates
    [where riw = 10000 and sv = "374.89" and st = "initial_state 10000 374.89"
       and radius = 5 and height_cyl = 15
       and ins = "[Num 100, Num 0.25, Num 0.25, Num 0.25, Num 490, Num 1, Num 1, Num 1,
         Num 50, Num 1, Num 1, Num 1, Done]"]
  unfolding load_trace_example by (simp add: loader_eval)

subsection \<open>Bounds on the sine, on \<open>pi\<close>, on the exponential and on a square root\<close>

lemma sin_series9:
  fixes x :: real
  shows "(\<Sum>m<9. sin_coeff m * x ^ m) = x - x^3 / 6 + x^5 / 120 - x^7 / 5040"
  by (simp add: numeral_eq_Suc sin_coeff_Suc cos_coeff_Suc)

lemma sin_poly_bound:
  fixes x :: real
  assumes "0 \<le> x"
  shows "\<bar>sin x - (x - x^3 / 6 + x^5 / 120 - x^7 / 5040)\<bar> \<le> x^9 / 362880"
proof -
  have "inverse (fact 9) * \<bar>x\<bar> ^ 9 = x ^ 9 / 362880"
    using assms by (simp add: fact_numeral)
  then show ?thesis
    using Maclaurin_sin_bound [of x 9] by (simp only: sin_series9)
qed

lemma sin_upper:
  fixes x :: real
  assumes "0 \<le> x"
  shows "sin x \<le> x - x^3 / 6 + x^5 / 120 - x^7 / 5040 + x^9 / 362880"
  using sin_poly_bound [OF assms] by linarith

lemma sin_lower:
  fixes x :: real
  assumes "0 \<le> x"
  shows "x - x^3 / 6 + x^5 / 120 - x^7 / 5040 - x^9 / 362880 \<le> sin x"
  using sin_poly_bound [OF assms] by linarith

lemma sin_0785_bounds: "0.7068 < sin (0.785 :: real)" "sin (0.785 :: real) < 0.70685"
proof -
  have "(0.7068::real) <
      0.785 - 0.785^3 / 6 + 0.785^5 / 120 - 0.785^7 / 5040 - 0.785^9 / 362880"
    by (simp add: power_divide)
  also have "\<dots> \<le> sin 0.785" by (rule sin_lower) simp
  finally show "0.7068 < sin (0.785 :: real)" .
  have "sin (0.785::real) \<le>
      0.785 - 0.785^3 / 6 + 0.785^5 / 120 - 0.785^7 / 5040 + 0.785^9 / 362880"
    by (rule sin_upper) simp
  also have "\<dots> < 0.70685" by (simp add: power_divide)
  finally show "sin (0.785 :: real) < 0.70685" .
qed

lemma pi_bounds: "3.14159 < pi" "pi < 3.1416"
proof -
  let ?a = "314159 / 600000 :: real"
  let ?b = "31416 / 60000 :: real"
  have "sin ?a \<le> ?a - ?a^3 / 6 + ?a^5 / 120 - ?a^7 / 5040 + ?a^9 / 362880"
    by (rule sin_upper) simp
  also have "\<dots> < 1 / 2" by (simp add: power_divide)
  finally have lo: "sin ?a < sin (pi / 6)" by (simp add: sin_30)
  have "1 / 2 < ?b - ?b^3 / 6 + ?b^5 / 120 - ?b^7 / 5040 - ?b^9 / 362880"
    by (simp add: power_divide)
  also have "\<dots> \<le> sin ?b" by (rule sin_lower) simp
  finally have hi: "sin (pi / 6) < sin ?b" by (simp add: sin_30)
  have p: "2 \<le> pi" "pi < 4" using pi_ge_two pi_less_4 by auto
  have "?a < pi / 6"
    using lo p by (subst (asm) sin_mono_less_eq) simp_all
  then show "3.14159 < pi" by simp
  have "pi / 6 < ?b"
    using hi p by (subst (asm) sin_mono_less_eq) simp_all
  then show "pi < 3.1416" by simp
qed

lemma exp_series14:
  fixes x :: real
  shows "(\<Sum>m<14. x ^ m / fact m) =
     1 + x + x^2 / 2 + x^3 / 6 + x^4 / 24 + x^5 / 120 + x^6 / 720 + x^7 / 5040 +
     x^8 / 40320 + x^9 / 362880 + x^10 / 3628800 + x^11 / 39916800 +
     x^12 / 479001600 + x^13 / 6227020800"
  by (simp add: numeral_eq_Suc)

lemma exp_65_bounds: "3.320116 < exp (6 / 5 :: real)" "exp (6 / 5 :: real) < 3.320118"
proof -
  let ?x = "6 / 5 :: real"
  obtain t where t: "\<bar>t\<bar> \<le> \<bar>?x\<bar>"
    and e: "exp ?x = (\<Sum>m<14. ?x ^ m / fact m) + exp t / fact 14 * ?x ^ 14"
    using Maclaurin_exp_le [of ?x 14] by blast
  have f: "fact 14 = (87178291200 :: real)" by (simp add: fact_numeral)
  have "exp t \<le> exp 2" using t by simp
  also have "exp (2::real) = exp 1 * exp 1" by (simp flip: exp_add)
  also have "\<dots> \<le> 3 * 3" by (intro mult_mono exp_le) simp_all
  finally have r1: "exp t \<le> 9" by simp
  have r0: "0 < exp t" by simp
  have rem_lo: "0 \<le> exp t / fact 14 * ?x ^ 14" by simp
  have "exp t / fact 14 * ?x ^ 14 \<le> 9 / fact 14 * ?x ^ 14"
    by (intro mult_right_mono divide_right_mono r1) simp_all
  also have "\<dots> < 1 / 100000000" by (simp add: f power_divide)
  finally have rem_hi: "exp t / fact 14 * ?x ^ 14 < 1 / 100000000" .
  have s_lo: "3320116 / 1000000 < (\<Sum>m<14. ?x ^ m / fact m)"
    unfolding exp_series14 by (simp add: power_divide)
  have s_hi: "(\<Sum>m<14. ?x ^ m / fact m) < 33201179 / 10000000"
    unfolding exp_series14 by (simp add: power_divide)
  have "3320116 / 1000000 < exp ?x" using e s_lo rem_lo by linarith
  then show "3.320116 < exp ?x" by simp
  have "exp ?x < 3320118 / 1000000" using e s_hi rem_hi by linarith
  then show "exp ?x < 3.320118" by simp
qed

lemma sqrt_125_bounds: "11.1803 < sqrt 125" "sqrt 125 < 11.1804"
  by (rule real_less_rsqrt, simp add: power2_eq_square)
     (rule real_less_lsqrt, simp_all add: power2_eq_square)

subsection \<open>Float arithmetic: sequencing, errors, the exact instance\<close>

lemma then_e_simps [simp]:
  "then_e (Inl err) f = Inl err"
  "then_e (Inr x) f = f x"
  by (simp_all add: then_e_def)

lemma then_e_Inr_iff: "then_e m f = Inr y \<longleftrightarrow> (\<exists>x. m = Inr x \<and> f x = Inr y)"
  by (cases m) simp_all

lemma then_e_Inl_iff:
  "then_e m f = Inl err \<longleftrightarrow> m = Inl err \<or> (\<exists>x. m = Inr x \<and> f x = Inl err)"
  by (cases m) auto

lemma rocket_volume_raises:
  assumes "python_raises ar" and "rocket_volume ar radius height_cone height_cyl = Inl err"
  shows "err = OverflowError"
proof -
  have d: "\<And>x. f_div ar x (f_lit ar 3) \<noteq> Inl err"
    using assms(1) unfolding python_raises_def by metis
  have p: "\<And>x. f_pow ar x (f_lit ar 2) = Inl err \<Longrightarrow> err = OverflowError"
    using assms(1) unfolding python_raises_def by blast
  show ?thesis
    using assms(2) d p
    by (auto simp: rocket_volume_def then_e_Inl_iff Let_def)
qed

lemma rocket_mass_raises:
  assumes "python_raises ar" and "rocket_mass ar radius height_cone height_cyl = Inl err"
  shows "err = OverflowError"
  using assms rocket_volume_raises [OF assms(1)]
  by (auto simp: rocket_mass_def then_e_Inl_iff Let_def)

lemma rocket_fuel_cases:
  "rocket_fuel ar radius height_cone height_cyl velocity_e velocity_i flight_time =
     (case rocket_mass ar radius height_cone height_cyl of
        Inl err \<Rightarrow> Inl err
      | Inr mass \<Rightarrow>
          (case f_div ar velocity_i velocity_e of
             Inl err \<Rightarrow> Inl err
           | Inr ratio \<Rightarrow>
               (case f_pow ar (f_lit ar (exp 1)) ratio of
                  Inl err \<Rightarrow> Inl err
                | Inr e_power \<Rightarrow>
                    Inr (f_round2 ar
                      (f_add ar (f_mul ar mass (f_sub ar e_power (f_lit ar 1)))
                         (f_mul ar
                            (f_lit ar
                               (if f_lt ar mass (f_lit ar ROCKET_SMALL_MASS)
                                then SMALL_ROCKET_FUEL_ECON
                                else if f_lt ar mass (f_lit ar ROCKET_MEDIUM_MASS)
                                then MED_ROCKET_FUEL_ECON
                                else LARGE_ROCKET_FUEL_ECON))
                            flight_time))))))"
  by (simp add: rocket_fuel_def Let_def split: sum.splits)

lemma python_raises_ideal: "python_raises ideal"
  by (auto simp: python_raises_def ideal_def f_is_zero_def Let_def split: if_splits)

lemma FLOAT_MAX_bounds: "2 ^ 1023 \<le> FLOAT_MAX" "FLOAT_MAX < 2 ^ 1024"
proof -
  have "(1::real) \<le> 2 - 1 / 2 ^ 52" by simp
  then have "1 * (2::real) ^ 1023 \<le> (2 - 1 / 2 ^ 52) * 2 ^ 1023"
    by (intro mult_right_mono) simp_all
  then show "2 ^ 1023 \<le> FLOAT_MAX" by (simp add: FLOAT_MAX_def)
  have "(2 - 1 / 2 ^ 52) * (2::real) ^ 1023 < 2 * 2 ^ 1023"
    by (intro mult_strict_right_mono) simp_all
  also have "\<dots> = 2 ^ 1024" by simp
  finally show "FLOAT_MAX < 2 ^ 1024" by (simp add: FLOAT_MAX_def)
qed

lemma in_float_range:
  fixes p :: real
  assumes "p \<le> 2 ^ 40"
  shows "\<not> FLOAT_MAX < p"
proof -
  have "(2::real) ^ 40 \<le> 2 ^ 1023" by (rule power_increasing) simp_all
  then show ?thesis using assms FLOAT_MAX_bounds(1) by linarith
qed

lemma exp_overflow:
  fixes x :: real
  assumes "1024 \<le> x"
  shows "FLOAT_MAX < exp x"
proof -
  have "(2::real) \<le> exp 1" using exp_ge_add_one_self [of 1] by simp
  then have "(2::real) ^ 1024 \<le> exp 1 ^ 1024" by (intro power_mono) simp_all
  also have "\<dots> = exp (of_nat 1024 * 1)" by (simp only: exp_of_nat_mult)
  also have "\<dots> \<le> exp x" using assms by simp
  finally show ?thesis using FLOAT_MAX_bounds(2) by linarith
qed

lemma ideal_simps [simp]:
  "f_lit ideal r = r" "f_fin ideal x" "f_val ideal x = x"
  "f_add ideal x y = x + y" "f_sub ideal x y = x - y" "f_mul ideal x y = x * y"
  "f_div ideal x y = (if y = 0 then Inl ZeroDivisionError else Inr (x / y))"
  "f_sqrt ideal x = (if x < 0 then Inl ValueError else Inr (sqrt x))"
  "f_sin ideal x = Inr (sin x)" "f_round2 ideal x = py_round2 x"
  "f_lt ideal x y \<longleftrightarrow> x < y" "f_ge ideal x y \<longleftrightarrow> x \<ge> y"
  "f_int ideal x = Inr (py_int x)"
  by (simp_all add: ideal_def)

lemma ideal_square:
  "f_pow ideal x 2 = (if FLOAT_MAX < x\<^sup>2 then Inl OverflowError else Inr (x\<^sup>2))"
  by (simp add: ideal_def)

lemma ideal_exp:
  "f_pow ideal (exp 1) y = (if FLOAT_MAX < exp y then Inl OverflowError else Inr (exp y))"
proof (cases "y = 2")
  case True
  have "(exp 1)\<^sup>2 = exp (2::real)" by (simp add: power2_eq_square flip: exp_add)
  with True show ?thesis by (simp add: ideal_def)
next
  case False
  then show ?thesis by (simp add: ideal_def powr_def)
qed

subsection \<open>The documented examples in the exact instance\<close>

lemma rocket_volume_ideal_5_10_15: "rocket_volume ideal 5 10 15 = Inr (14399 / 10)"
proof -
  have "py_round2 (pi * 5\<^sup>2 * (10 / 3) + pi * 5\<^sup>2 * 15) = of_int 143990 / 100"
    using pi_bounds by (intro py_round2_eqI) simp_all
  then show ?thesis
    by (simp add: rocket_volume_def Let_def ideal_square in_float_range)
qed

lemma rocket_mass_ideal_5_10_15: "rocket_mass ideal 5 10 15 = Inr (44097 / 25)"
proof -
  have "py_round2 (14399 / 10 * DENSITY_OF_ROCKET) = of_int 176388 / 100"
    by (intro py_round2_eqI) (simp_all add: constants)
  then show ?thesis by (simp add: rocket_mass_def Let_def rocket_volume_ideal_5_10_15)
qed

lemma rocket_mass_ideal_3_7_8: "rocket_mass ideal 3 7 8 = Inr (35791 / 100)"
proof -
  have "py_round2 (pi * 3\<^sup>2 * (7 / 3) + pi * 3\<^sup>2 * 8) = of_int 29217 / 100"
    using pi_bounds by (intro py_round2_eqI) simp_all
  then have v: "rocket_volume ideal 3 7 8 = Inr (29217 / 100)"
    by (simp add: rocket_volume_def Let_def ideal_square in_float_range)
  have "py_round2 (29217 / 100 * DENSITY_OF_ROCKET) = of_int 35791 / 100"
    by (intro py_round2_eqI) (simp_all add: constants)
  then show ?thesis by (simp add: rocket_mass_def Let_def v)
qed

lemma exp_65_in_range: "\<not> FLOAT_MAX < exp (6 / 5 :: real)"
proof -
  have "exp (6 / 5 :: real) \<le> 2 ^ 40" using exp_65_bounds(2) by simp
  then show ?thesis by (rule in_float_range)
qed

lemma rocket_fuel_ideal_example:
  "rocket_fuel ideal 5 10 15 2500 3000 120 = Inr (16729241 / 100)"
proof -
  have "py_round2 (44097 / 25 * (exp (6 / 5) - 1) + 1360 * 120) = of_int 16729241 / 100"
    using exp_65_bounds by (intro py_round2_eqI) simp_all
  then show ?thesis
    using exp_65_in_range
    by (simp add: rocket_fuel_cases rocket_mass_ideal_5_10_15 ideal_exp constants)
qed

lemma rocket_fuel_ideal_overflow:
  "rocket_fuel ideal 5 10 15 2 3000 120 = Inl OverflowError"
  using exp_overflow [of 1500]
  by (simp add: rocket_fuel_cases rocket_mass_ideal_5_10_15 ideal_exp)

lemma rocket_fuel_ideal_huge_radius:
  "rocket_fuel ideal (10 ^ 200) 1 1 0 1 1 = Inl OverflowError"
proof -
  have "(2::real) ^ 1024 \<le> (10 ^ 200)\<^sup>2" by simp
  then have "FLOAT_MAX < ((10::real) ^ 200)\<^sup>2"
    using FLOAT_MAX_bounds(2) by linarith
  then show ?thesis
    by (simp add: rocket_fuel_cases rocket_mass_def rocket_volume_def ideal_square)
qed

lemma rocket_area_ideal_5_10_15: "rocket_area ideal 5 10 15 = Inr (3627 / 5)"
proof -
  have e: "pi * 5 * (5 + sqrt (10\<^sup>2 + 5\<^sup>2)) + 2 * pi * 5 * (15 + 5) - 2 * (pi * 5\<^sup>2)
      = pi * (175 + 5 * sqrt 125)"
    by (simp add: algebra_simps)
  have "314159 / 100000 * (175 + 5 * (111803 / 10000)) < pi * (175 + 5 * sqrt 125)"
    using pi_bounds sqrt_125_bounds by (intro mult_strict_mono) simp_all
  moreover have "pi * (175 + 5 * sqrt 125) < 31416 / 10000 * (175 + 5 * (111804 / 10000))"
    using pi_bounds sqrt_125_bounds by (intro mult_strict_mono) simp_all
  ultimately have "py_round2 (pi * (175 + 5 * sqrt 125)) = of_int 72540 / 100"
    by (intro py_round2_eqI) simp_all
  then have r: "py_round2 (pi * 5 * (5 + sqrt (10\<^sup>2 + 5\<^sup>2)) + 2 * pi * 5 * (15 + 5)
      - 2 * (pi * 5\<^sup>2)) = 3627 / 5"
    unfolding e by simp
  have s: "\<not> (10\<^sup>2 + 5\<^sup>2 :: real) < 0" by simp
  show ?thesis
    unfolding rocket_area_def Let_def ideal_square ideal_simps
    using r s by (simp add: in_float_range)
qed

lemma calculate_cost_ideal_eqTrue:
  assumes "py_eq_True tax"
  shows "calculate_cost ideal 5 10 15 2500 3000 120 tax = Inr (117772731 / 100)"
proof -
  have "py_round2 ((3627 / 5 * METAL_COST + 16729241 / 100 * FUEL_COST) * TAX)
      = of_int 117772731 / 100"
    by (intro py_round2_eqI) (simp_all add: constants)
  then show ?thesis
    using assms
    by (simp add: calculate_cost_def Let_def rocket_fuel_ideal_example
          rocket_area_ideal_5_10_15)
qed

lemma calculate_cost_ideal_neqTrue:
  assumes "\<not> py_eq_True tax"
  shows "calculate_cost ideal 5 10 15 2500 3000 120 tax = Inr (10241107 / 10)"
proof -
  have "py_round2 (3627 / 5 * METAL_COST + 16729241 / 100 * FUEL_COST)
      = of_int 102411070 / 100"
    by (intro py_round2_eqI) (simp_all add: constants)
  then show ?thesis
    using assms
    by (simp add: calculate_cost_def Let_def rocket_fuel_ideal_example
          rocket_area_ideal_5_10_15)
qed

subsection \<open>Fuel and cost: the claims\<close>




text \<open>
  C6, as amended. Where no operation raises (the mass is computed, the division of the
  velocities and the power of \<^verbatim>\<open>math.e\<close> return), \<open>rocket_fuel\<close> returns
  \<^verbatim>\<open>round(mass * (math.e**(velocity_i/velocity_e) - 1) + addend, 2)\<close>, each
  operation being the float operation, where the addend is the flight time times 1360
  when the mass is below 100000, times 2000 when it is not and is below 400000, and
  times 2721 otherwise. In particular \<open>rocket_fuel 5 10 15 2500 3000 120\<close> is
  167292.41.
\<close>

theorem rocket_fuel_value:
  "(\<forall>mass ratio e_power.
      rocket_mass ar radius height_cone height_cyl = Inr mass \<and>
      f_div ar velocity_i velocity_e = Inr ratio \<and>
      f_pow ar (f_lit ar (exp 1)) ratio = Inr e_power \<longrightarrow>
      rocket_fuel ar radius height_cone height_cyl velocity_e velocity_i flight_time =
        Inr (f_round2 ar
          (f_add ar (f_mul ar mass (f_sub ar e_power (f_lit ar 1)))
             (f_mul ar
                (f_lit ar
                   (if f_lt ar mass (f_lit ar 100000) then 1360
                    else if f_lt ar mass (f_lit ar 400000) then 2000
                    else 2721))
                flight_time)))) \<and>
   rocket_fuel ideal 5 10 15 2500 3000 120 = Inr 167292.41"
  using rocket_fuel_ideal_example
  by (simp add: rocket_fuel_cases constants)

theorem rocket_fuel_value_witness:
  "rocket_mass ideal 3 7 8 = Inr 357.91 \<and> f_div ideal 1800 1500 = Inr (6 / 5) \<and>
   f_pow ideal (f_lit ideal (exp 1)) (6 / 5) = Inr (exp (6 / 5)) \<and>
   rocket_fuel ideal 3 7 8 1500 1800 100 = Inr 136830.39"
proof -
  have m: "rocket_mass ideal 3 7 8 = Inr 357.91"
    using rocket_mass_ideal_3_7_8 by simp
  have d: "f_div ideal 1800 1500 = Inr (6 / 5)" by simp
  have p: "f_pow ideal (f_lit ideal (exp 1)) (6 / 5) = Inr (exp (6 / 5))"
    using exp_65_in_range by (simp add: ideal_exp)
  have "rocket_fuel ideal 3 7 8 1500 1800 100 =
      Inr (f_round2 ideal
        (f_add ideal (f_mul ideal 357.91 (f_sub ideal (exp (6 / 5)) (f_lit ideal 1)))
           (f_mul ideal
              (f_lit ideal
                 (if f_lt ideal 357.91 (f_lit ideal 100000) then 1360
                  else if f_lt ideal 357.91 (f_lit ideal 400000) then 2000
                  else 2721))
              100)))"
    using rocket_fuel_value [of ideal 3 7 8 1800 1500 100] m d p by blast
  moreover have "py_round2 (35791 / 100 * (exp (6 / 5) - 1) + 1360 * 100) =
      of_int 13683039 / 100"
    using exp_65_bounds by (intro py_round2_eqI) simp_all
  ultimately have "rocket_fuel ideal 3 7 8 1500 1800 100 = Inr 136830.39"
    by simp
  then show ?thesis using m d p by simp
qed

text \<open>
  The claim C6 as worded, for all inputs with a nonzero exhaust velocity, fails where the
  power overflows: with the exhaust velocity 1 and the initial velocity 1800 the power
  \<^verbatim>\<open>math.e**1800.0\<close> is beyond the largest float and \<open>rocket_fuel\<close> raises.
\<close>

theorem rocket_fuel_value_counterexample:
  "\<not> f_is_zero ideal 1 \<and> rocket_fuel ideal 3 7 8 1 1800 100 = Inl OverflowError"
  using exp_overflow [of 1800]
  by (simp add: rocket_fuel_cases rocket_mass_ideal_3_7_8 ideal_exp f_is_zero_def)

text \<open>
  C7, as amended. \<open>rocket_fuel\<close> raises the division by zero exactly when the mass is
  computed (\<^verbatim>\<open>radius**2\<close> has not overflowed before) and the exhaust velocity is
  zero; it raises nothing but the division by zero and the overflow of a power; it
  returns a value exactly when the mass is computed, the division returns and the power
  of \<^verbatim>\<open>math.e\<close> does not overflow. An error of \<open>rocket_fuel\<close> passes through
  \<open>calculate_cost\<close> unrecovered, once \<open>rocket_area\<close>, called before it, has
  returned.
\<close>

theorem rocket_fuel_division_by_zero:
  assumes "python_raises ar"
  shows
   "(rocket_fuel ar radius height_cone height_cyl velocity_e velocity_i flight_time
       = Inl ZeroDivisionError \<longleftrightarrow>
     (\<exists>mass. rocket_mass ar radius height_cone height_cyl = Inr mass) \<and>
     f_is_zero ar velocity_e) \<and>
    (\<forall>err. rocket_fuel ar radius height_cone height_cyl velocity_e velocity_i flight_time
       = Inl err \<longrightarrow> err = ZeroDivisionError \<or> err = OverflowError) \<and>
    ((\<exists>fuel. rocket_fuel ar radius height_cone height_cyl velocity_e velocity_i flight_time
       = Inr fuel) \<longleftrightarrow>
     (\<exists>mass. rocket_mass ar radius height_cone height_cyl = Inr mass) \<and>
     (\<exists>ratio e_power. f_div ar velocity_i velocity_e = Inr ratio \<and>
        f_pow ar (f_lit ar (exp 1)) ratio = Inr e_power)) \<and>
    (\<forall>area err.
       rocket_area ar radius height_cone height_cyl = Inr area \<and>
       rocket_fuel ar radius height_cone height_cyl velocity_e velocity_i flight_time
         = Inl err \<longrightarrow>
       calculate_cost ar radius height_cone height_cyl velocity_e velocity_i flight_time tax
         = Inl err)"
proof -
  have m: "\<And>err. rocket_mass ar radius height_cone height_cyl = Inl err
      \<Longrightarrow> err = OverflowError"
    using rocket_mass_raises [OF assms] by blast
  have z: "\<And>x y. f_div ar x y = Inl ZeroDivisionError \<longleftrightarrow> f_is_zero ar y"
    using assms unfolding python_raises_def by blast
  have d: "\<And>x y err. f_div ar x y = Inl err \<Longrightarrow> err = ZeroDivisionError"
    using assms unfolding python_raises_def by blast
  have p: "\<And>y err. f_pow ar (f_lit ar (exp 1)) y = Inl err \<Longrightarrow> err = OverflowError"
    using assms unfolding python_raises_def by blast
  show ?thesis
  proof (intro conjI allI impI)
    show "rocket_fuel ar radius height_cone height_cyl velocity_e velocity_i flight_time
        = Inl ZeroDivisionError \<longleftrightarrow>
      (\<exists>mass. rocket_mass ar radius height_cone height_cyl = Inr mass) \<and>
      f_is_zero ar velocity_e"
      unfolding rocket_fuel_cases
      using z [of velocity_i velocity_e]
      by (auto split: sum.splits dest: m d p)
  next
    fix err
    assume "rocket_fuel ar radius height_cone height_cyl velocity_e velocity_i flight_time
        = Inl err"
    then show "err = ZeroDivisionError \<or> err = OverflowError"
      unfolding rocket_fuel_cases by (auto split: sum.splits dest: m d p)
  next
    show "(\<exists>fuel. rocket_fuel ar radius height_cone height_cyl velocity_e velocity_i
        flight_time = Inr fuel) \<longleftrightarrow>
      (\<exists>mass. rocket_mass ar radius height_cone height_cyl = Inr mass) \<and>
      (\<exists>ratio e_power. f_div ar velocity_i velocity_e = Inr ratio \<and>
         f_pow ar (f_lit ar (exp 1)) ratio = Inr e_power)"
      unfolding rocket_fuel_cases by (auto split: sum.splits)
  next
    fix area err
    assume "rocket_area ar radius height_cone height_cyl = Inr area \<and>
       rocket_fuel ar radius height_cone height_cyl velocity_e velocity_i flight_time
         = Inl err"
    then show "calculate_cost ar radius height_cone height_cyl velocity_e velocity_i
        flight_time tax = Inl err"
      by (simp add: calculate_cost_def Let_def)
  qed
qed

lemma rocket_fuel_ideal_zero:
  "rocket_fuel ideal 5 10 15 0 3000 120 = Inl ZeroDivisionError"
  by (simp add: rocket_fuel_cases rocket_mass_ideal_5_10_15)

theorem rocket_fuel_division_by_zero_witness:
  "python_raises ideal \<and> f_is_zero ideal 0 \<and>
   rocket_mass ideal 5 10 15 = Inr 1763.88 \<and>
   rocket_fuel ideal 5 10 15 0 3000 120 = Inl ZeroDivisionError \<and>
   calculate_cost ideal 5 10 15 0 3000 120 (PyBool True) = Inl ZeroDivisionError"
proof -
  note t = rocket_fuel_division_by_zero [OF python_raises_ideal,
      of 5 10 15 0 3000 120 "PyBool True"]
  have z: "f_is_zero ideal 0" by (simp add: f_is_zero_def)
  have m: "rocket_mass ideal 5 10 15 = Inr 1763.88"
    using rocket_mass_ideal_5_10_15 by simp
  have f: "rocket_fuel ideal 5 10 15 0 3000 120 = Inl ZeroDivisionError"
    using t z m by blast
  have "\<exists>area. rocket_area ideal 5 10 15 = Inr area"
    by (simp add: rocket_area_def Let_def ideal_square in_float_range)
  then have "calculate_cost ideal 5 10 15 0 3000 120 (PyBool True) = Inl ZeroDivisionError"
    using t f by blast
  then show ?thesis using python_raises_ideal z m f by simp
qed

text \<open>
  The claim C7 as worded fails twice: a nonzero exhaust velocity does not always give a
  value (exhaust velocity 2, initial velocity 3000: the power overflows), and a zero
  exhaust velocity does not always give the division by zero (radius \<open>10 ^ 200\<close>:
  \<^verbatim>\<open>radius**2\<close> overflows first).
\<close>

theorem rocket_fuel_overflow_counterexample:
  "\<not> f_is_zero ideal 2 \<and>
   rocket_fuel ideal 5 10 15 2 3000 120 = Inl OverflowError \<and>
   f_is_zero ideal 0 \<and>
   rocket_fuel ideal (10 ^ 200) 1 1 0 1 1 = Inl OverflowError"
  using rocket_fuel_ideal_overflow rocket_fuel_ideal_huge_radius
  by (simp add: f_is_zero_def)

subsection \<open>The trajectory simulator: the claim\<close>

lemma sim_loop_Cons:
  assumes "spec_height ar interval velocity_i angle k = Inr h"
  shows "sim_loop ar interval velocity_i angle (k # ks) =
     (if f_ge ar h (f_lit ar 0)
      then (f_round2 ar h # fst (sim_loop ar interval velocity_i angle ks),
            snd (sim_loop ar interval velocity_i angle ks))
      else ([], None))"
  using assms
  by (auto simp: spec_height_def then_e_Inr_iff Let_def GRAVITY_CONSTANT_def
           split: prod.splits)

lemma sim_loop_takeWhile:
  assumes "\<forall>k \<in> set ks. spec_height ar interval velocity_i angle k = Inr (heights k)"
  shows "sim_loop ar interval velocity_i angle ks =
     (map (f_round2 ar) (takeWhile (\<lambda>h. f_ge ar h (f_lit ar 0)) (map heights ks)), None)"
  using assms
proof (induction ks)
  case Nil
  show ?case by simp
next
  case (Cons k ks)
  have "spec_height ar interval velocity_i angle k = Inr (heights k)"
    using Cons.prems by simp
  from sim_loop_Cons [OF this] Cons show ?case by simp
qed

lemma sim_loop_stop:
  assumes "spec_height ar interval velocity_i angle k = Inr h"
    and "\<not> f_ge ar h (f_lit ar 0)"
  shows "sim_loop ar interval velocity_i angle (k # ks) = ([], None)"
  using sim_loop_Cons [OF assms(1)] assms(2) by simp

lemma sim_loop_go:
  assumes "spec_height ar interval velocity_i angle k = Inr h"
    and "f_ge ar h (f_lit ar 0)"
    and "sim_loop ar interval velocity_i angle ks = (printed, None)"
  shows "sim_loop ar interval velocity_i angle (k # ks) = (f_round2 ar h # printed, None)"
  using sim_loop_Cons [OF assms(1)] assms(2,3) by simp

lemma spec_height_ideal:
  assumes "(real k * i)\<^sup>2 \<le> 2 ^ 40"
  shows "spec_height ideal i v a k =
     Inr (- 0.5 * 9.81 * (real k * i)\<^sup>2 + v * sin a * (real k * i))"
  using in_float_range [OF assms]
  by (simp add: spec_height_def Let_def ideal_square)

lemma height_example:
  fixes s :: real
  assumes "0.7068 < s" "s < 0.70685"
  shows "py_round2 (- 0.5 * 9.81 * (real 0 * 1)\<^sup>2 + 30 * s * (real 0 * 1)) = 0"
    and "py_round2 (- 0.5 * 9.81 * (real 1 * 1)\<^sup>2 + 30 * s * (real 1 * 1)) = 16.3"
    and "py_round2 (- 0.5 * 9.81 * (real 2 * 1)\<^sup>2 + 30 * s * (real 2 * 1)) = 22.79"
    and "py_round2 (- 0.5 * 9.81 * (real 3 * 1)\<^sup>2 + 30 * s * (real 3 * 1)) = 19.47"
    and "py_round2 (- 0.5 * 9.81 * (real 4 * 1)\<^sup>2 + 30 * s * (real 4 * 1)) = 6.34"
    and "\<not> 0 \<le> - 0.5 * 9.81 * (real 5 * 1)\<^sup>2 + 30 * s * (real 5 * 1)"
    and "0 \<le> - 0.5 * 9.81 * (real 0 * 1)\<^sup>2 + 30 * s * (real 0 * 1)"
    and "0 \<le> - 0.5 * 9.81 * (real 1 * 1)\<^sup>2 + 30 * s * (real 1 * 1)"
    and "0 \<le> - 0.5 * 9.81 * (real 2 * 1)\<^sup>2 + 30 * s * (real 2 * 1)"
    and "0 \<le> - 0.5 * 9.81 * (real 3 * 1)\<^sup>2 + 30 * s * (real 3 * 1)"
    and "0 \<le> - 0.5 * 9.81 * (real 4 * 1)\<^sup>2 + 30 * s * (real 4 * 1)"
proof -
  have "py_round2 (- 0.5 * 9.81 * (real 0 * 1)\<^sup>2 + 30 * s * (real 0 * 1)) = of_int 0 / 100"
    by (intro py_round2_eqI) simp_all
  then show "py_round2 (- 0.5 * 9.81 * (real 0 * 1)\<^sup>2 + 30 * s * (real 0 * 1)) = 0"
    by simp
  have "py_round2 (- 0.5 * 9.81 * (real 1 * 1)\<^sup>2 + 30 * s * (real 1 * 1)) = of_int 1630 / 100"
    using assms by (intro py_round2_eqI) simp_all
  then show "py_round2 (- 0.5 * 9.81 * (real 1 * 1)\<^sup>2 + 30 * s * (real 1 * 1)) = 16.3"
    by simp
  have "py_round2 (- 0.5 * 9.81 * (real 2 * 1)\<^sup>2 + 30 * s * (real 2 * 1)) = of_int 2279 / 100"
    using assms by (intro py_round2_eqI) simp_all
  then show "py_round2 (- 0.5 * 9.81 * (real 2 * 1)\<^sup>2 + 30 * s * (real 2 * 1)) = 22.79"
    by simp
  have "py_round2 (- 0.5 * 9.81 * (real 3 * 1)\<^sup>2 + 30 * s * (real 3 * 1)) = of_int 1947 / 100"
    using assms by (intro py_round2_eqI) simp_all
  then show "py_round2 (- 0.5 * 9.81 * (real 3 * 1)\<^sup>2 + 30 * s * (real 3 * 1)) = 19.47"
    by simp
  have "py_round2 (- 0.5 * 9.81 * (real 4 * 1)\<^sup>2 + 30 * s * (real 4 * 1)) = of_int 634 / 100"
    using assms by (intro py_round2_eqI) simp_all
  then show "py_round2 (- 0.5 * 9.81 * (real 4 * 1)\<^sup>2 + 30 * s * (real 4 * 1)) = 6.34"
    by simp
qed (use assms in simp_all)

lemma steps_example: "py_range0 (py_int (10 / 1) + 1) = [0, 1, 2, 3, 4, 5, 6, 7, 8, 9, 10]"
  by (simp add: py_range0_def py_int_def upt_rec)

lemma projectile_sim_ideal_example:
  "projectile_sim ideal 10 1 30 0.785 = ([0, 16.3, 22.79, 19.47, 6.34], None)"
proof -
  note h = height_example [OF sin_0785_bounds]
  have s: "\<And>k. k \<le> 5 \<Longrightarrow> spec_height ideal 1 30 0.785 k =
      Inr (- 0.5 * 9.81 * (real k * 1)\<^sup>2 + 30 * sin 0.785 * (real k * 1))"
  proof (rule spec_height_ideal)
    fix k :: nat
    assume "k \<le> 5"
    then have "real k \<le> 5" by simp
    then have "(real k)\<^sup>2 \<le> 5\<^sup>2" by (intro power_mono) simp_all
    then show "(real k * 1)\<^sup>2 \<le> 2 ^ 40" by simp
  qed
  have "sim_loop ideal 1 30 0.785 [5, 6, 7, 8, 9, 10] = ([], None)"
    by (rule sim_loop_stop [OF s [of 5]]) (use h(6) in simp_all)
  then have "sim_loop ideal 1 30 0.785 [4, 5, 6, 7, 8, 9, 10] = ([6.34], None)"
    using sim_loop_go [OF s [of 4], of "[5, 6, 7, 8, 9, 10]" "[]"] h(5,11) by simp
  then have "sim_loop ideal 1 30 0.785 [3, 4, 5, 6, 7, 8, 9, 10] = ([19.47, 6.34], None)"
    using sim_loop_go [OF s [of 3], of "[4, 5, 6, 7, 8, 9, 10]" "[6.34]"] h(4,10) by simp
  then have "sim_loop ideal 1 30 0.785 [2, 3, 4, 5, 6, 7, 8, 9, 10] =
      ([22.79, 19.47, 6.34], None)"
    using sim_loop_go [OF s [of 2], of "[3, 4, 5, 6, 7, 8, 9, 10]" "[19.47, 6.34]"] h(3,9)
    by simp
  then have "sim_loop ideal 1 30 0.785 [1, 2, 3, 4, 5, 6, 7, 8, 9, 10] =
      ([16.3, 22.79, 19.47, 6.34], None)"
    using sim_loop_go [OF s [of 1], of "[2, 3, 4, 5, 6, 7, 8, 9, 10]"
        "[22.79, 19.47, 6.34]"] h(2,8)
    by simp
  then have l: "sim_loop ideal 1 30 0.785 [0, 1, 2, 3, 4, 5, 6, 7, 8, 9, 10] =
      ([0, 16.3, 22.79, 19.47, 6.34], None)"
    using sim_loop_go [OF s [of 0], of "[1, 2, 3, 4, 5, 6, 7, 8, 9, 10]"
        "[16.3, 22.79, 19.47, 6.34]"] h(1,7)
    by simp
  have "projectile_sim ideal 10 1 30 0.785 =
      sim_loop ideal 1 30 0.785 (py_range0 (py_int (10 / 1) + 1))"
    by (simp add: projectile_sim_def del: sim_loop.simps)
  then show ?thesis by (simp only: steps_example l)
qed

text \<open>
  C8, as amended. Where the division of simulation time by interval returns and
  \<^verbatim>\<open>int\<close> of the float quotient returns, the last step is that quotient truncated
  towards zero, which is its floor when the quotient is not negative; and where no
  height of the steps from 0 to the last raises, \<open>projectile_sim\<close> produces, in order,
  the heights \<^verbatim>\<open>-0.5*9.81*t**2 + vInitial*sin(angle)*t\<close> at the times
  \<open>t = step * interval\<close>, computed in float arithmetic and rounded to two decimals,
  and stops before the first negative height, emitting neither that height nor a later
  one. A zero interval raises the division by zero. In particular
  \<open>projectile_sim 10 1 30 0.785\<close> yields \<open>[0.0, 16.3, 22.79, 19.47, 6.34]\<close>.
\<close>

theorem projectile_sim_heights:
  assumes "python_raises ar"
  shows
   "(\<forall>ratio n.
       f_div ar simulation_time interval = Inr ratio \<and> f_int ar ratio = Inr n \<longrightarrow>
       n = py_int (f_val ar ratio) \<and>
       (0 \<le> f_val ar ratio \<longrightarrow> n = \<lfloor>f_val ar ratio\<rfloor>) \<and>
       ((\<forall>step. int step \<le> n \<longrightarrow>
           spec_height ar interval velocity_i angle step = Inr (heights step)) \<longrightarrow>
        projectile_sim ar simulation_time interval velocity_i angle =
          (spec_trajectory ar n heights, None))) \<and>
    (f_is_zero ar interval \<longrightarrow>
       projectile_sim ar simulation_time interval velocity_i angle =
         ([], Some ZeroDivisionError)) \<and>
    projectile_sim ideal 10 1 30 0.785 = ([0, 16.3, 22.79, 19.47, 6.34], None)"
proof (intro conjI allI impI)
  fix ratio n
  assume a: "f_div ar simulation_time interval = Inr ratio \<and> f_int ar ratio = Inr n"
  then show n: "n = py_int (f_val ar ratio)"
    using assms unfolding python_raises_def by blast
  show "n = \<lfloor>f_val ar ratio\<rfloor>" if "0 \<le> f_val ar ratio"
    using n that by (simp add: py_int_def)
  show "projectile_sim ar simulation_time interval velocity_i angle =
      (spec_trajectory ar n heights, None)"
    if h: "\<forall>step. int step \<le> n \<longrightarrow>
        spec_height ar interval velocity_i angle step = Inr (heights step)"
  proof -
    have "\<forall>k \<in> set (py_range0 (n + 1)).
        spec_height ar interval velocity_i angle k = Inr (heights k)"
      using h by (auto simp: py_range0_def)
    from sim_loop_takeWhile [OF this] a show ?thesis
      by (simp add: projectile_sim_def spec_trajectory_def py_range0_def)
  qed
next
  assume "f_is_zero ar interval"
  then have "f_div ar simulation_time interval = Inl ZeroDivisionError"
    using assms unfolding python_raises_def by blast
  then show "projectile_sim ar simulation_time interval velocity_i angle =
      ([], Some ZeroDivisionError)"
    by (simp add: projectile_sim_def)
next
  show "projectile_sim ideal 10 1 30 0.785 = ([0, 16.3, 22.79, 19.47, 6.34], None)"
    by (rule projectile_sim_ideal_example)
qed

theorem projectile_sim_heights_witness:
  "python_raises ideal \<and> f_div ideal 10 1 = Inr 10 \<and> f_int ideal 10 = Inr 10 \<and>
   (0::real) \<le> 10 \<and> py_int 10 = \<lfloor>10 :: real\<rfloor> \<and>
   spec_trajectory ideal 10
     (\<lambda>step. - 0.5 * 9.81 * (real step * 1)\<^sup>2 + 30 * sin 0.785 * (real step * 1)) =
     [0, 16.3, 22.79, 19.47, 6.34]"
proof -
  let ?h = "\<lambda>step. - 0.5 * 9.81 * (real step * 1)\<^sup>2 + 30 * sin 0.785 * (real step * 1)"
  note t = projectile_sim_heights [OF python_raises_ideal, of 10 1 30 "0.785" ?h]
  have d: "f_div ideal 10 1 = Inr 10" "f_int ideal 10 = Inr 10"
    by (simp_all add: py_int_def)
  have s: "\<forall>step. int step \<le> 10 \<longrightarrow> spec_height ideal 1 30 0.785 step = Inr (?h step)"
  proof (intro allI impI)
    fix step :: nat
    assume "int step \<le> 10"
    then have "real step \<le> 10" by simp
    then have "(real step)\<^sup>2 \<le> 10\<^sup>2" by (intro power_mono) simp_all
    then have "(real step * 1)\<^sup>2 \<le> 2 ^ 40" by simp
    then show "spec_height ideal 1 30 0.785 step = Inr (?h step)"
      by (rule spec_height_ideal)
  qed
  have "projectile_sim ideal 10 1 30 0.785 = (spec_trajectory ideal 10 ?h, None)"
    using t d s by blast
  moreover have "projectile_sim ideal 10 1 30 0.785 = ([0, 16.3, 22.79, 19.47, 6.34], None)"
    using t by blast
  ultimately have "spec_trajectory ideal 10 ?h = [0, 16.3, 22.79, 19.47, 6.34]"
    by (simp only: prod.inject)
  then show ?thesis
    using python_raises_ideal d by (simp add: py_int_def)
qed

text \<open>
  The claim C8 as worded, with the floor of the quotient as the last step, fails for a
  quotient strictly between -1 and 0: the floor is -1 and gives no step, where the code
  truncates to 0 and prints the height of step 0.
\<close>

theorem projectile_sim_floor_counterexample:
  "f_div ideal (- 1) 2 = Inr (- 1 / 2) \<and>
   projectile_sim ideal (- 1) 2 30 0.785 = ([0], None) \<and>
   spec_trajectory ideal \<lfloor>- 1 / 2 :: real\<rfloor>
     (\<lambda>step. - 0.5 * 9.81 * (real step * 2)\<^sup>2 + 30 * sin 0.785 * (real step * 2)) = []"
proof -
  have r: "py_round2 0 = 0" using py_round2_of_int [of 0] by simp
  have c: "\<lceil>- (1 / 2) :: real\<rceil> = 0" by (simp add: ceiling_eq_iff)
  have f: "\<lfloor>- 1 / 2 :: real\<rfloor> = - 1" by (simp add: floor_eq_iff)
  have "py_range0 (py_int (- 1 / 2) + 1) = [0]"
    by (simp add: py_int_def py_range0_def c)
  then have "projectile_sim ideal (- 1) 2 30 0.785 = ([0], None)"
    using in_float_range [of 0]
    by (simp add: projectile_sim_def r ideal_square Let_def)
  moreover have "spec_trajectory ideal \<lfloor>- 1 / 2 :: real\<rfloor>
     (\<lambda>step. - 0.5 * 9.81 * (real step * 2)\<^sup>2 + 30 * sin 0.785 * (real step * 2)) = []"
    unfolding f by (simp add: spec_trajectory_def)
  ultimately show ?thesis by simp
qed

end
